theory Spec2Isabelle
  imports Main "HOL-Library.Sublist"
begin

section \<open>The A2A client of src/a2a-client.ts\<close>

text \<open>
  The theory embeds the class \<open>A2AClient\<close>: the three operations that POST to the
  \<open>/a2a\<close> endpoint (\<open>send\<close>, its private helper \<open>handleStreaming\<close>, and the generator
  \<open>stream\<close>) and the wrapper \<open>continue\<close>.

  Conventions of the embedding.
  \<^item> A JavaScript string is a \<open>string\<close>; one \<open>char\<close> stands for one code unit, so that
    \<open>length\<close> is \<open>.length\<close>, \<open>drop n\<close> is \<open>.slice(n)\<close> for \<open>0 \<le> n\<close>, and \<open>prefix p\<close> is
    \<open>.startsWith(p)\<close>.
  \<^item> Values that the source annotates with the interfaces \<open>Task\<close> and \<open>JsonRpcResponse\<close>
    are records of those interfaces: the embedding covers the payloads that have the
    declared shape. An optional member is an \<open>option\<close>.
  \<^item> What the platform provides and the repository does not define (\<open>fetch\<close>,
    \<open>JSON.parse\<close>, \<open>TextDecoder\<close>) is a parameter, collected in the record \<open>platform\<close>.
  \<^item> An exception is a value of \<open>js_error\<close>; an operation returns its outcome together
    with the client object as the call leaves it. An outcome \<open>None\<close> is a promise that
    never settles (a \<open>read()\<close> that never resolves).
  \<^item> The debugging output (\<open>log\<close>, \<open>process.stdout.write\<close>, \<open>console.log\<close>) changes no
    state of the client and is left out; where computing the text to print can throw, the
    throw is kept.
\<close>

subsection \<open>Data model\<close>

datatype role = User | Agent

record part =
  ptext :: string

record task_message =
  role :: role
  parts :: "part list"

datatype task_status = Submitted | Working | InputRequired | Completed | Failed | Canceled

record artifact =
  artifact_name :: string
  artifact_parts :: "part list"

record Task =
  task_id :: string
  contextId :: string
  task_status :: task_status
  messages :: "task_message list"
  artifacts :: "artifact list"

record rpc_error =
  code :: int
  message :: string

record JsonRpcResponse =
  result :: "Task option"
  error :: "rpc_error option"
  rpc_id :: nat

text \<open>The fields of the class: \<open>baseUrl\<close>, \<open>currentContextId\<close> (absent: \<open>None\<close>) and
  \<open>requestId\<close>.\<close>

record A2AClient =
  baseUrl :: string
  currentContextId :: "string option"
  requestId :: nat

text \<open>The second argument of \<open>send\<close>, \<open>options?: {contextId?: string; streaming?: boolean}\<close>.\<close>

record options =
  opt_contextId :: "string option"
  opt_streaming :: "bool option"

text \<open>The JSON-RPC request that is serialised into the body of the POST. A member that
  \<open>JSON.stringify\<close> leaves out (an absent or \<open>undefined\<close> \<open>contextId\<close>) is \<open>None\<close>.\<close>

record configuration =
  cfg_contextId :: "string option"
  cfg_streaming :: bool

record payload =
  rpc_method :: string
  params_message :: task_message
  params_configuration :: configuration
  payload_id :: nat

record request =
  url :: string
  body :: payload

text \<open>
  The reader obtained from \<open>response.body.getReader()\<close>, as the sequence of results of its
  \<open>read()\<close> calls: \<open>Chunk value r\<close> resolves to \<open>{done: false, value}\<close> and goes on as \<open>r\<close>;
  \<open>Closed\<close> resolves to \<open>{done: true}\<close>; \<open>Stalled\<close> never resolves (the transport keeps the
  connection open and sends nothing); \<open>Broken\<close> rejects.
\<close>

datatype 'b reader = Closed | Stalled | Broken | Chunk "'b list" "'b reader"

text \<open>The response of \<open>fetch\<close>: its \<open>status\<close>, what \<open>response.json()\<close> resolves to (\<open>None\<close>: it
  rejects, the body is not JSON), and \<open>response.body?.getReader()\<close>.\<close>

record ('j, 'b) response =
  status :: nat
  json :: "'j option"
  body_reader :: "'b reader option"

datatype ('j, 'b) fetch_result = Rejected | Resolved "('j, 'b) response"

text \<open>
  The platform: \<open>'j\<close> is the type of parsed JSON values, \<open>'b\<close> of the bytes of a chunk,
  \<open>'d\<close> of the internal state of a \<open>TextDecoder\<close>. \<open>as_JsonRpcResponse\<close> reads a parsed value
  at the type the source annotates it with; \<open>decode d value\<close> is
  \<open>decoder.decode(value, {stream: true})\<close> in decoder state \<open>d\<close>.
\<close>

record ('j, 'b, 'd) platform =
  fetch :: "request \<Rightarrow> ('j, 'b) fetch_result"
  JSON_parse :: "string \<Rightarrow> 'j option"
  as_JsonRpcResponse :: "'j \<Rightarrow> JsonRpcResponse"
  decode :: "'d \<Rightarrow> 'b list \<Rightarrow> string \<times> 'd"
  new_TextDecoder :: 'd

datatype 'j js_error =
    PaymentRequiredError 'j
  | Error string
  | TypeError
  | SyntaxError
  | NetworkError

type_synonym 'j send_result = "('j js_error + Task) option \<times> A2AClient"

type_synonym 'j stream_result =
  "(string \<times> A2AClient) list \<times> ('j js_error + unit) option \<times> A2AClient"

subsection \<open>Line reassembly\<close>

text \<open>\<open>s.split('\n')\<close>: the pieces between newlines; never empty.\<close>

fun split_nl :: "string \<Rightarrow> string list" where
  "split_nl [] = [[]]"
| "split_nl (c # cs) =
     (if c = CHR 0x0A then [] # split_nl cs
      else (case split_nl cs of l # ls \<Rightarrow> (c # l) # ls | [] \<Rightarrow> [[c]]))"

text \<open>
  \<open>buffer += text; const lines = buffer.split('\n'); buffer = lines.pop() || ''\<close>:
  the lines that remain in \<open>lines\<close> and the new buffer.
\<close>

definition take_lines :: "string \<Rightarrow> string \<Rightarrow> string list \<times> string" where
  "take_lines buffer text =
     (let lines = split_nl (buffer @ text) in (butlast lines, last lines))"

definition agentMsg :: "Task \<Rightarrow> task_message option" where
  "agentMsg t = find (\<lambda>m. role m = Agent) (messages t)"

subsection \<open>handleStreaming\<close>

text \<open>The body of the \<open>try\<close> block: the new value of \<open>lastTask\<close> and the exception thrown,
  if any. \<open>agentMsg.parts[0].text\<close> throws when \<open>parts\<close> is empty.\<close>

definition handle_try ::
  "('j, 'b, 'd) platform \<Rightarrow> string \<Rightarrow> Task option \<Rightarrow> Task option \<times> 'j js_error option" where
  "handle_try P data lastTask =
     (case JSON_parse P data of
        None \<Rightarrow> (lastTask, Some SyntaxError)
      | Some v \<Rightarrow>
          (case result (as_JsonRpcResponse P v) of
             None \<Rightarrow> (lastTask, None)
           | Some r \<Rightarrow>
               (case agentMsg r of
                  None \<Rightarrow> (Some r, None)
                | Some m \<Rightarrow>
                    (case parts m of
                       [] \<Rightarrow> (Some r, Some TypeError)
                     | p # _ \<Rightarrow> (Some r, None)))))"

text \<open>One turn of \<open>for (const line of lines)\<close>; the \<open>catch\<close> drops the exception.\<close>

definition handle_line ::
  "('j, 'b, 'd) platform \<Rightarrow> Task option \<Rightarrow> string \<Rightarrow> Task option" where
  "handle_line P lastTask line =
     (if prefix ''data: '' line then
        (let data = drop 6 line in
         if data = ''[DONE]'' then lastTask
         else fst (handle_try P data lastTask))
      else lastTask)"

datatype 'a loop_result = Finished 'a | Blocked | ReadFailed

text \<open>The \<open>while (true)\<close> loop over \<open>reader.read()\<close>.\<close>

fun handleStreaming_loop ::
  "('j, 'b, 'd) platform \<Rightarrow> 'd \<Rightarrow> Task option \<Rightarrow> string \<Rightarrow> 'b reader \<Rightarrow>
   Task option loop_result" where
  "handleStreaming_loop P d lastTask buffer Closed = Finished lastTask"
| "handleStreaming_loop P d lastTask buffer Stalled = Blocked"
| "handleStreaming_loop P d lastTask buffer Broken = ReadFailed"
| "handleStreaming_loop P d lastTask buffer (Chunk value r) =
     (case decode P d value of (text, d') \<Rightarrow>
      case take_lines buffer text of (lines, buffer') \<Rightarrow>
        handleStreaming_loop P d' (foldl (handle_line P) lastTask lines) buffer' r)"

definition a2a_url :: "A2AClient \<Rightarrow> string" where
  "a2a_url this = baseUrl this @ ''/a2a''"

definition handleStreaming ::
  "('j, 'b, 'd) platform \<Rightarrow> A2AClient \<Rightarrow> payload \<Rightarrow> 'j send_result" where
  "handleStreaming P this pl =
     (case fetch P \<lparr>url = a2a_url this, body = pl\<rparr> of
        Rejected \<Rightarrow> (Some (Inl NetworkError), this)
      | Resolved response \<Rightarrow>
          if status response = 402 then
            (case json response of
               None \<Rightarrow> (Some (Inl SyntaxError), this)
             | Some info \<Rightarrow> (Some (Inl (PaymentRequiredError info)), this))
          else
            (case body_reader response of
               None \<Rightarrow> (Some (Inl (Error ''No response body'')), this)
             | Some reader \<Rightarrow>
                 (case handleStreaming_loop P (new_TextDecoder P) None [] reader of
                    Blocked \<Rightarrow> (None, this)
                  | ReadFailed \<Rightarrow> (Some (Inl NetworkError), this)
                  | Finished None \<Rightarrow> (Some (Inl (Error ''No task received'')), this)
                  | Finished (Some lastTask) \<Rightarrow>
                      (Some (Inr lastTask),
                       this\<lparr>currentContextId := Some (contextId lastTask)\<rparr>))))"

subsection \<open>send\<close>

text \<open>\<open>options?.contextId || this.currentContextId\<close>: the empty string is falsy.\<close>

definition effective_contextId :: "A2AClient \<Rightarrow> options option \<Rightarrow> string option" where
  "effective_contextId this opts =
     (case opts of
        None \<Rightarrow> currentContextId this
      | Some opt \<Rightarrow>
          (case opt_contextId opt of
             None \<Rightarrow> currentContextId this
           | Some c \<Rightarrow> if c \<noteq> [] then Some c else currentContextId this))"

definition wants_streaming :: "options option \<Rightarrow> bool" where
  "wants_streaming opts =
     (case opts of
        None \<Rightarrow> False
      | Some opt \<Rightarrow> (case opt_streaming opt of None \<Rightarrow> False | Some b \<Rightarrow> b))"

definition user_message :: "string \<Rightarrow> task_message" where
  "user_message text = \<lparr>role = User, parts = [\<lparr>ptext = text\<rparr>]\<rparr>"

text \<open>The payload of \<open>send\<close>; \<open>...(contextId && { contextId })\<close> adds the member only for a
  truthy context id.\<close>

definition send_payload :: "A2AClient \<Rightarrow> string \<Rightarrow> options option \<Rightarrow> payload" where
  "send_payload this text opts =
     \<lparr>rpc_method = ''message/send'',
      params_message = user_message text,
      params_configuration =
        \<lparr>cfg_contextId =
           (case effective_contextId this opts of
              None \<Rightarrow> None
            | Some c \<Rightarrow> if c \<noteq> [] then Some c else None),
         cfg_streaming = wants_streaming opts\<rparr>,
      payload_id = Suc (requestId this)\<rparr>"

definition send ::
  "('j, 'b, 'd) platform \<Rightarrow> A2AClient \<Rightarrow> string \<Rightarrow> options option \<Rightarrow> 'j send_result" where
  "send P this text opts =
     (let pl = send_payload this text opts;
          this1 = this\<lparr>requestId := Suc (requestId this)\<rparr>
      in
      if wants_streaming opts then handleStreaming P this1 pl
      else
        (case fetch P \<lparr>url = a2a_url this1, body = pl\<rparr> of
           Rejected \<Rightarrow> (Some (Inl NetworkError), this1)
         | Resolved response \<Rightarrow>
             if status response = 402 then
               (case json response of
                  None \<Rightarrow> (Some (Inl SyntaxError), this1)
                | Some paymentInfo \<Rightarrow> (Some (Inl (PaymentRequiredError paymentInfo)), this1))
             else
               (case json response of
                  None \<Rightarrow> (Some (Inl SyntaxError), this1)
                | Some v \<Rightarrow>
                    (let res = as_JsonRpcResponse P v in
                     case error res of
                       Some e \<Rightarrow> (Some (Inl (Error (''RPC Error: '' @ message e))), this1)
                     | None \<Rightarrow>
                         (case result res of
                            None \<Rightarrow> (Some (Inl TypeError), this1)
                          | Some task \<Rightarrow>
                              (Some (Inr task),
                               this1\<lparr>currentContextId := Some (contextId task)\<rparr>))))))"

subsection \<open>stream\<close>

text \<open>
  The body of the \<open>try\<close> block of \<open>stream\<close>, run in the state \<open>(this, lastText)\<close>: what it
  yields (the text, with the client object as it is at the \<open>yield\<close>), the state it leaves,
  and the exception thrown, if any. The context id is assigned before \<open>parts[0]\<close> is read.
\<close>

definition stream_try ::
  "('j, 'b, 'd) platform \<Rightarrow> string \<Rightarrow> A2AClient \<times> string \<Rightarrow>
   ((string \<times> A2AClient) option \<times> A2AClient \<times> string) \<times> 'j js_error option" where
  "stream_try P data s =
     (case s of (this, lastText) \<Rightarrow>
      case JSON_parse P data of
        None \<Rightarrow> ((None, this, lastText), Some SyntaxError)
      | Some v \<Rightarrow>
          (case result (as_JsonRpcResponse P v) of
             None \<Rightarrow> ((None, this, lastText), None)
           | Some r \<Rightarrow>
               (let this' = this\<lparr>currentContextId := Some (contextId r)\<rparr> in
                case agentMsg r of
                  None \<Rightarrow> ((None, this', lastText), None)
                | Some m \<Rightarrow>
                    (case parts m of
                       [] \<Rightarrow> ((None, this', lastText), Some TypeError)
                     | p # _ \<Rightarrow>
                         (let newText = ptext p in
                          if length newText > length lastText then
                            ((Some (drop (length lastText) newText, this'), this', newText), None)
                          else ((None, this', lastText), None))))))"

definition stream_line ::
  "('j, 'b, 'd) platform \<Rightarrow> string \<Rightarrow> A2AClient \<times> string \<Rightarrow>
   (string \<times> A2AClient) option \<times> A2AClient \<times> string" where
  "stream_line P line s =
     (if prefix ''data: '' line then
        (let data = drop 6 line in
         if data = ''[DONE]'' then (None, s)
         else fst (stream_try P data s))
      else (None, s))"

text \<open>The \<open>for\<close> loop over the lines of one chunk: the yields in order, and the state left.\<close>

fun stream_lines ::
  "('j, 'b, 'd) platform \<Rightarrow> string list \<Rightarrow> A2AClient \<times> string \<Rightarrow>
   (string \<times> A2AClient) list \<times> A2AClient \<times> string" where
  "stream_lines P [] s = ([], s)"
| "stream_lines P (line # lines) s =
     (case stream_line P line s of (y, s') \<Rightarrow>
      case stream_lines P lines s' of (ys, s'') \<Rightarrow>
        ((case y of None \<Rightarrow> [] | Some e \<Rightarrow> [e]) @ ys, s''))"

text \<open>
  The \<open>while (true)\<close> loop of the generator, run until it ends: every yield, how the
  generator ends (\<open>Some (Inr ())\<close>: it returns; \<open>Some (Inl e)\<close>: it throws; \<open>None\<close>: it waits
  for ever on a \<open>read()\<close>) and the client object then. A consumer that abandons the
  generator at a yield leaves the client object as that yield records it.
\<close>

fun stream_loop ::
  "('j, 'b, 'd) platform \<Rightarrow> 'd \<Rightarrow> string \<Rightarrow> A2AClient \<times> string \<Rightarrow> 'b reader \<Rightarrow>
   'j stream_result" where
  "stream_loop P d buffer s Closed = ([], Some (Inr ()), fst s)"
| "stream_loop P d buffer s Stalled = ([], None, fst s)"
| "stream_loop P d buffer s Broken = ([], Some (Inl NetworkError), fst s)"
| "stream_loop P d buffer s (Chunk value r) =
     (case decode P d value of (text, d') \<Rightarrow>
      case take_lines buffer text of (lines, buffer') \<Rightarrow>
      case stream_lines P lines s of (ys, s') \<Rightarrow>
      case stream_loop P d' buffer' s' r of (ys', e, this') \<Rightarrow> (ys @ ys', e, this'))"

text \<open>The payload of \<open>stream\<close> carries \<open>this.currentContextId\<close> as it is.\<close>

definition stream_payload :: "A2AClient \<Rightarrow> string \<Rightarrow> payload" where
  "stream_payload this text =
     \<lparr>rpc_method = ''message/send'',
      params_message = user_message text,
      params_configuration =
        \<lparr>cfg_contextId = currentContextId this, cfg_streaming = True\<rparr>,
      payload_id = Suc (requestId this)\<rparr>"

definition stream ::
  "('j, 'b, 'd) platform \<Rightarrow> A2AClient \<Rightarrow> string \<Rightarrow> 'j stream_result" where
  "stream P this text =
     (let pl = stream_payload this text;
          this1 = this\<lparr>requestId := Suc (requestId this)\<rparr>
      in
      case fetch P \<lparr>url = a2a_url this1, body = pl\<rparr> of
        Rejected \<Rightarrow> ([], Some (Inl NetworkError), this1)
      | Resolved response \<Rightarrow>
          if status response = 402 then
            (case json response of
               None \<Rightarrow> ([], Some (Inl SyntaxError), this1)
             | Some info \<Rightarrow> ([], Some (Inl (PaymentRequiredError info)), this1))
          else
            (case body_reader response of
               None \<Rightarrow> ([], Some (Inl (Error ''No response body'')), this1)
             | Some reader \<Rightarrow> stream_loop P (new_TextDecoder P) [] (this1, []) reader))"

subsection \<open>continue\<close>

text \<open>\<open>continue(text, streaming = false)\<close>; \<open>!this.currentContextId\<close> holds for an absent
  context id and for the empty string.\<close>

definition continue ::
  "('j, 'b, 'd) platform \<Rightarrow> A2AClient \<Rightarrow> string \<Rightarrow> bool option \<Rightarrow> 'j send_result" where
  "continue P this text streaming =
     (let streaming' = (case streaming of None \<Rightarrow> False | Some b \<Rightarrow> b) in
      case currentContextId this of
        None \<Rightarrow> (Some (Inl (Error ''No active conversation. Call send() first.'')), this)
      | Some c \<Rightarrow>
          if c = [] then
            (Some (Inl (Error ''No active conversation. Call send() first.'')), this)
          else
            send P this text
              (Some \<lparr>opt_contextId = Some c, opt_streaming = Some streaming'\<rparr>))"

subsection \<open>Notions used to state the properties\<close>

text \<open>How a reader ends, after all its chunks.\<close>

fun reader_end :: "'b reader \<Rightarrow> 'b reader" where
  "reader_end (Chunk value r) = reader_end r"
| "reader_end r = r"

text \<open>The lines that the \<open>for\<close> loops go through over all the reads of a reader, in order:
  the fully terminated lines. Both loops reassemble them with the same three statements.\<close>

fun emitted_lines :: "('j, 'b, 'd) platform \<Rightarrow> 'd \<Rightarrow> string \<Rightarrow> 'b reader \<Rightarrow> string list" where
  "emitted_lines P d buffer (Chunk value r) =
     (case decode P d value of (text, d') \<Rightarrow>
      case take_lines buffer text of (lines, buffer') \<Rightarrow>
        lines @ emitted_lines P d' buffer' r)"
| "emitted_lines P d buffer r = []"

text \<open>The Task that the loops decode from a line, if any: the line starts with \<open>data: \<close>, its
  payload is not the sentinel, parses, and carries a \<open>result\<close>.\<close>

definition frame_of :: "('j, 'b, 'd) platform \<Rightarrow> string \<Rightarrow> Task option" where
  "frame_of P line =
     (if prefix ''data: '' line \<and> drop 6 line \<noteq> ''[DONE]'' then
        (case JSON_parse P (drop 6 line) of
           None \<Rightarrow> None
         | Some v \<Rightarrow> result (as_JsonRpcResponse P v))
      else None)"

definition decoded_frames :: "('j, 'b, 'd) platform \<Rightarrow> string list \<Rightarrow> Task list" where
  "decoded_frames P lines = List.map_filter (frame_of P) lines"

text \<open>
  The agent-message text of a Task, read off the messages of the Task and not through any
  function of the client: the text of the first part of the first message whose role is
  \<open>agent\<close>. A Task without a message of that role has none, nor has a Task whose first
  such message has no part.
\<close>

fun agent_message_text :: "task_message list \<Rightarrow> string option" where
  "agent_message_text [] = None"
| "agent_message_text (m # ms) =
     (if role m = Agent then (case parts m of [] \<Rightarrow> None | p # _ \<Rightarrow> Some (ptext p))
      else agent_message_text ms)"

definition agent_text :: "Task \<Rightarrow> string option" where
  "agent_text t = agent_message_text (messages t)"

text \<open>A decoder in streaming mode gives the same text however the bytes are cut into calls,
  as \<open>TextDecoder\<close> does with \<open>{stream: true}\<close>.\<close>

definition streaming_decoder :: "('d \<Rightarrow> 'b list \<Rightarrow> string \<times> 'd) \<Rightarrow> bool" where
  "streaming_decoder dec \<longleftrightarrow>
     (\<forall>d. dec d [] = ([], d)) \<and>
     (\<forall>d a b. dec d (a @ b) =
        (case dec d a of (s1, d1) \<Rightarrow> case dec d1 b of (s2, d2) \<Rightarrow> (s1 @ s2, d2)))"

text \<open>The reader that delivers the chunks \<open>cs\<close> and goes on as \<open>r\<close>.\<close>

fun chunked :: "'b list list \<Rightarrow> 'b reader \<Rightarrow> 'b reader" where
  "chunked [] r = r"
| "chunked (c # cs) r = Chunk c (chunked cs r)"

text \<open>How the generator ends on a reader.\<close>

definition stream_end :: "'b reader \<Rightarrow> ('j js_error + unit) option" where
  "stream_end r =
     (case reader_end r of
        Closed \<Rightarrow> Some (Inr ())
      | Broken \<Rightarrow> Some (Inl NetworkError)
      | _ \<Rightarrow> None)"

text \<open>Decoding chunk after chunk: the whole text and the state of the decoder then.\<close>

fun decode_chunks ::
  "('d \<Rightarrow> 'b list \<Rightarrow> string \<times> 'd) \<Rightarrow> 'd \<Rightarrow> 'b list list \<Rightarrow> string \<times> 'd" where
  "decode_chunks dec d [] = ([], d)"
| "decode_chunks dec d (c # cs) =
     (case dec d c of (s1, d1) \<Rightarrow> case decode_chunks dec d1 cs of (s2, d2) \<Rightarrow> (s1 @ s2, d2))"

text \<open>Each text extends the one before it.\<close>

fun prefix_chain :: "string list \<Rightarrow> bool" where
  "prefix_chain (x # y # zs) = (prefix x y \<and> prefix_chain (y # zs))"
| "prefix_chain xs = True"

definition agent_texts :: "Task list \<Rightarrow> string list" where
  "agent_texts fs = List.map_filter agent_text fs"

text \<open>The assignment \<open>this.currentContextId = r.contextId\<close>.\<close>

definition store_contextId :: "A2AClient \<Rightarrow> Task \<Rightarrow> A2AClient" where
  "store_contextId this r = this\<lparr>currentContextId := Some (contextId r)\<rparr>"

text \<open>The context id of the last of the frames \<open>fs\<close>, or \<open>c\<close> when there is none.\<close>

definition contextId_after :: "string option \<Rightarrow> Task list \<Rightarrow> string option" where
  "contextId_after c fs = (case fs of [] \<Rightarrow> c | _ \<Rightarrow> Some (contextId (last fs)))"

text \<open>The lines and the frames of one exchange, whose response body is read through
  \<open>reader\<close> with a fresh decoder and an empty buffer.\<close>

definition exchange_lines :: "('j, 'b, 'd) platform \<Rightarrow> 'b reader \<Rightarrow> string list" where
  "exchange_lines P reader = emitted_lines P (new_TextDecoder P) [] reader"

definition exchange_frames :: "('j, 'b, 'd) platform \<Rightarrow> 'b reader \<Rightarrow> Task list" where
  "exchange_frames P reader = decoded_frames P (exchange_lines P reader)"

text \<open>The client after \<open>++this.requestId\<close>, and the requests that \<open>send\<close> and \<open>stream\<close> pass to
  \<open>fetch\<close>.\<close>

definition next_request :: "A2AClient \<Rightarrow> A2AClient" where
  "next_request this = this\<lparr>requestId := Suc (requestId this)\<rparr>"

definition send_request :: "A2AClient \<Rightarrow> string \<Rightarrow> options option \<Rightarrow> request" where
  "send_request this text opts = \<lparr>url = a2a_url this, body = send_payload this text opts\<rparr>"

definition stream_request :: "A2AClient \<Rightarrow> string \<Rightarrow> request" where
  "stream_request this text = \<lparr>url = a2a_url this, body = stream_payload this text\<rparr>"

text \<open>A line other than the sentinel's data line.\<close>

definition not_done :: "string \<Rightarrow> bool" where
  "not_done line \<longleftrightarrow> line \<noteq> ''data: [DONE]''"

text \<open>The error of \<open>continue\<close>.\<close>

definition no_conversation :: "'j js_error" where
  "no_conversation = Error ''No active conversation. Call send() first.''"

subsection \<open>Concrete inputs\<close>

text \<open>
  A platform for the examples: parsed values are payment challenges or JSON-RPC envelopes,
  \<open>JSON.parse\<close> knows a few payloads and throws on every other text, the body is ASCII (the
  decoder returns the bytes as they are), and \<open>fetch\<close> answers every request with the given
  response.
\<close>

datatype sample_json = Challenge "(string \<times> string) list" | Envelope JsonRpcResponse

definition sample_task :: "string \<Rightarrow> string \<Rightarrow> Task" where
  "sample_task c t =
     \<lparr>task_id = ''task-1'', contextId = c, task_status = Working,
      messages = [user_message ''Hi'', \<lparr>role = Agent, parts = [\<lparr>ptext = t\<rparr>]\<rparr>],
      artifacts = []\<rparr>"

definition sample_envelope :: "Task \<Rightarrow> sample_json" where
  "sample_envelope t = Envelope \<lparr>result = Some t, error = None, rpc_id = 1\<rparr>"

definition sample_parse :: "string \<Rightarrow> sample_json option" where
  "sample_parse data =
     map_of
       [(''{hel}'', sample_envelope (sample_task ''ctx-1'' ''Hel'')),
        (''{hello}'', sample_envelope (sample_task ''ctx-1'' ''Hello'')),
        (''{bye}'', sample_envelope (sample_task ''ctx-1'' ''Bye now'')),
        (''{other}'', sample_envelope (sample_task ''ctx-2'' ''Hello''))] data"

fun sample_view :: "sample_json \<Rightarrow> JsonRpcResponse" where
  "sample_view (Envelope r) = r"
| "sample_view (Challenge c) = \<lparr>result = None, error = None, rpc_id = 0\<rparr>"

definition sample_platform ::
  "(sample_json, char) response \<Rightarrow> (sample_json, char, unit) platform" where
  "sample_platform response =
     \<lparr>fetch = (\<lambda>req. Resolved response), JSON_parse = sample_parse,
      as_JsonRpcResponse = sample_view, decode = (\<lambda>d value. (value, d)),
      new_TextDecoder = ()\<rparr>"

definition sample_client :: A2AClient where
  "sample_client = \<lparr>baseUrl = ''http://localhost:3000'', currentContextId = None, requestId = 0\<rparr>"

definition sample_body :: "char reader \<Rightarrow> (sample_json, char) response" where
  "sample_body reader = \<lparr>status = 200, json = None, body_reader = Some reader\<rparr>"

definition sample_402 :: "(sample_json, char) response" where
  "sample_402 =
     \<lparr>status = 402, json = Some (Challenge [(''amount'', ''0.01'')]), body_reader = Some Stalled\<rparr>"

definition sample_500 :: "(sample_json, char) response" where
  "sample_500 =
     \<lparr>status = 500, json = Some (sample_envelope (sample_task ''ctx-1'' ''Hello'')),
      body_reader = None\<rparr>"

definition sample_empty_context :: "(sample_json, char) response" where
  "sample_empty_context =
     \<lparr>status = 200, json = Some (sample_envelope (sample_task [] ''Hello'')),
      body_reader = None\<rparr>"

definition streaming_on :: "options option" where
  "streaming_on = Some \<lparr>opt_contextId = None, opt_streaming = Some True\<rparr>"

definition sample_sse :: string where
  "sample_sse = ''data: {hel}\<newline>\<newline>data: {hello}\<newline>\<newline>data: [DONE]\<newline>\<newline>''"

definition sample_stream :: string where
  "sample_stream = ''data: {hel}\<newline>: keep-alive\<newline>data: {hello}\<newline>data: [DONE]\<newline>''"

definition sample_restart :: string where
  "sample_restart = ''data: {hello}\<newline>data: {bye}\<newline>''"

definition empty_context_client :: A2AClient where
  "empty_context_client = sample_client\<lparr>currentContextId := Some [], requestId := 1\<rparr>"

definition active_client :: A2AClient where
  "active_client = sample_client\<lparr>currentContextId := Some ''ctx-1''\<rparr>"

definition done_only :: "char reader" where
  "done_only = Chunk ''data: [DONE]\<newline>\<newline>'' Closed"

definition done_stalled :: "char reader" where
  "done_stalled = Chunk ''data: [DONE]\<newline>\<newline>'' Stalled"

definition done_broken :: "char reader" where
  "done_broken = Chunk ''data: [DONE]\<newline>\<newline>'' Broken"

definition malformed_only :: "char reader" where
  "malformed_only = Chunk ''data: {hel\<newline>'' (Chunk ''event: ping\<newline>data: lo}\<newline>'' Closed)"

definition broken_stream :: "char reader" where
  "broken_stream = Chunk ''data: {hel}\<newline>da'' (Chunk ''ta: {other}\<newline>data: {he'' Broken)"

section \<open>Properties\<close>

subsection \<open>Lines, frames and the loops\<close>

lemma split_nl_nonempty: "split_nl s \<noteq> []"
  by (induction s) (auto split: list.splits)

lemma split_nl_append:
  "split_nl (a @ b) = butlast (split_nl a) @ (last (split_nl a) @ hd (split_nl b)) # tl (split_nl b)"
proof (induction a)
  case Nil
  then show ?case using split_nl_nonempty[of b] by (cases "split_nl b") auto
next
  case (Cons c a)
  show ?case
  proof (cases "c = CHR 0x0A")
    case True
    then show ?thesis using Cons split_nl_nonempty[of a] by simp
  next
    case False
    obtain l ls where sa: "split_nl a = l # ls" using split_nl_nonempty[of a] by (cases "split_nl a") auto
    show ?thesis
    proof (cases ls)
      case Nil
      then show ?thesis using False Cons sa by simp
    next
      case (Cons m ms)
      then show ?thesis using False Cons.IH sa by simp
    qed
  qed
qed

lemma last_split_nl_no_nl: "CHR 0x0A \<notin> set (last (split_nl s))"
proof (induction s)
  case Nil thus ?case by simp
next
  case (Cons c s)
  obtain l ls where sa: "split_nl s = l # ls" using split_nl_nonempty[of s] by (cases "split_nl s") auto
  then show ?case using Cons by (cases ls) auto
qed

lemma split_nl_no_nl: "CHR 0x0A \<notin> set l \<Longrightarrow> split_nl l = [l]"
  by (induction l) auto

lemma take_lines_append:
  "take_lines buffer (t1 @ t2) =
     (fst (take_lines buffer t1) @ fst (take_lines (snd (take_lines buffer t1)) t2),
      snd (take_lines (snd (take_lines buffer t1)) t2))"
proof -
  let ?a = "split_nl (buffer @ t1)"
  have b: "split_nl (last ?a) = [last ?a]" by (rule split_nl_no_nl[OF last_split_nl_no_nl])
  have 1: "split_nl (buffer @ t1 @ t2) = butlast ?a @ (last ?a @ hd (split_nl t2)) # tl (split_nl t2)"
    using split_nl_append[of "buffer @ t1" t2] by simp
  have 2: "split_nl (last ?a @ t2) = (last ?a @ hd (split_nl t2)) # tl (split_nl t2)"
    using split_nl_append[of "last ?a" t2] b by simp
  show ?thesis
    unfolding take_lines_def Let_def fst_conv snd_conv 1 2
    by (simp add: butlast_append)
qed

lemma handle_line_eq:
  "handle_line P lastTask line = (case frame_of P line of None \<Rightarrow> lastTask | Some r \<Rightarrow> Some r)"
  by (auto simp: handle_line_def handle_try_def frame_of_def Let_def split: option.splits list.splits)

lemma foldl_handle_line:
  "foldl (handle_line P) lastTask lines =
     (case decoded_frames P lines of [] \<Rightarrow> lastTask | fs \<Rightarrow> Some (last fs))"
proof (induction lines arbitrary: lastTask)
  case Nil
  then show ?case by (simp add: decoded_frames_def List.map_filter_simps)
next
  case (Cons l ls)
  have "foldl (handle_line P) lastTask (l # ls) =
          foldl (handle_line P) (handle_line P lastTask l) ls"
    by simp
  also have "\<dots> = (case decoded_frames P ls of [] \<Rightarrow> handle_line P lastTask l | fs \<Rightarrow> Some (last fs))"
    by (rule Cons)
  also have "\<dots> = (case decoded_frames P (l # ls) of [] \<Rightarrow> lastTask | fs \<Rightarrow> Some (last fs))"
    by (cases "frame_of P l"; cases "decoded_frames P ls")
       (simp_all add: handle_line_eq decoded_frames_def List.map_filter_simps)
  finally show ?case .
qed

lemma handleStreaming_loop_lines:
  "handleStreaming_loop P d lastTask buffer r =
     (case reader_end r of
        Closed \<Rightarrow> Finished (foldl (handle_line P) lastTask (emitted_lines P d buffer r))
      | Stalled \<Rightarrow> Blocked
      | Broken \<Rightarrow> ReadFailed
      | Chunk v r' \<Rightarrow> Blocked)"
  by (induction r arbitrary: d lastTask buffer) (auto split: prod.splits reader.splits)

lemma stream_lines_append:
  "stream_lines P (l1 @ l2) s =
     (fst (stream_lines P l1 s) @ fst (stream_lines P l2 (snd (stream_lines P l1 s))),
      snd (stream_lines P l2 (snd (stream_lines P l1 s))))"
  by (induction l1 arbitrary: s) (auto split: prod.splits)

lemma stream_loop_lines:
  "stream_loop P d buffer s r =
     (fst (stream_lines P (emitted_lines P d buffer r) s), stream_end r,
      fst (snd (stream_lines P (emitted_lines P d buffer r) s)))"
  by (induction r arbitrary: d buffer s) (auto simp: stream_end_def stream_lines_append split: prod.splits)

lemma decode_chunks_concat:
  "streaming_decoder dec \<Longrightarrow> decode_chunks dec d cs = dec d (concat cs)"
  by (induction cs arbitrary: d) (auto simp: streaming_decoder_def split: prod.splits)

lemma take_lines_empty: "CHR 0x0A \<notin> set buffer \<Longrightarrow> take_lines buffer [] = ([], buffer)"
  by (simp add: take_lines_def split_nl_no_nl)

lemma take_lines_snd_no_nl: "CHR 0x0A \<notin> set (snd (take_lines buffer text))"
  by (simp add: take_lines_def Let_def last_split_nl_no_nl)

lemma emitted_lines_chunked:
  "CHR 0x0A \<notin> set buffer \<Longrightarrow>
   emitted_lines P d buffer (chunked cs r) =
     fst (take_lines buffer (fst (decode_chunks (decode P) d cs))) @
     emitted_lines P (snd (decode_chunks (decode P) d cs))
       (snd (take_lines buffer (fst (decode_chunks (decode P) d cs)))) r"
proof (induction cs arbitrary: d buffer)
  case Nil
  then show ?case by (simp add: take_lines_empty)
next
  case (Cons c cs)
  obtain t1 d1 where dc: "decode P d c = (t1, d1)" by (cases "decode P d c")
  obtain l1 b1 where tl: "take_lines buffer t1 = (l1, b1)" by (cases "take_lines buffer t1")
  have nb: "CHR 0x0A \<notin> set b1" using take_lines_snd_no_nl[of buffer t1] tl by simp
  show ?case
    using Cons.IH[OF nb, of d1] dc tl
    by (simp add: take_lines_append split: prod.splits)
qed

lemma emitted_lines_concat:
  assumes "streaming_decoder (decode P)" "concat cs1 = concat cs2"
  shows "emitted_lines P d [] (chunked cs1 r) = emitted_lines P d [] (chunked cs2 r)"
  using assms by (simp add: emitted_lines_chunked decode_chunks_concat)

lemma reader_end_chunked: "reader_end (chunked cs r) = reader_end r"
  by (induction cs) auto

text \<open>What the client reads through \<open>agentMsg\<close> and \<open>parts[0]\<close> is the agent-message text.\<close>

lemma agent_message_text_find:
  "agent_message_text ms =
     (case find (\<lambda>m. role m = Agent) ms of
        None \<Rightarrow> None
      | Some m \<Rightarrow> (case parts m of [] \<Rightarrow> None | p # _ \<Rightarrow> Some (ptext p)))"
  by (induction ms) auto

lemma agent_text_agentMsg:
  "agent_text t =
     (case agentMsg t of
        None \<Rightarrow> None
      | Some m \<Rightarrow> (case parts m of [] \<Rightarrow> None | p # _ \<Rightarrow> Some (ptext p)))"
  by (simp add: agent_text_def agentMsg_def agent_message_text_find)

lemma stream_line_eq:
  "stream_line P line (this, lastText) =
     (case frame_of P line of
        None \<Rightarrow> (None, this, lastText)
      | Some r \<Rightarrow>
          (case agent_text r of
             None \<Rightarrow> (None, store_contextId this r, lastText)
           | Some t \<Rightarrow>
               if length lastText < length t then
                 (Some (drop (length lastText) t, store_contextId this r), store_contextId this r, t)
               else (None, store_contextId this r, lastText)))"
  by (auto simp: stream_line_def stream_try_def frame_of_def agent_text_agentMsg store_contextId_def
        Let_def
           split: option.splits list.splits)

lemma decoded_frames_Cons:
  "decoded_frames P (l # ls) =
     (case frame_of P l of None \<Rightarrow> decoded_frames P ls | Some r \<Rightarrow> r # decoded_frames P ls)"
  by (simp add: decoded_frames_def List.map_filter_simps split: option.splits)

lemma decoded_frames_Nil: "decoded_frames P [] = []"
  by (simp add: decoded_frames_def List.map_filter_simps)

lemma decoded_frames_append:
  "decoded_frames P (xs @ ys) = decoded_frames P xs @ decoded_frames P ys"
  by (simp add: decoded_frames_def List.map_filter_def)

lemma agent_texts_Cons:
  "agent_texts (r # fs) = (case agent_text r of None \<Rightarrow> agent_texts fs | Some t \<Rightarrow> t # agent_texts fs)"
  by (simp add: agent_texts_def List.map_filter_simps split: option.splits)

lemma agent_texts_Nil: "agent_texts [] = []"
  by (simp add: agent_texts_def List.map_filter_simps)

lemma prefix_same_length: "prefix a b \<Longrightarrow> length b \<le> length a \<Longrightarrow> b = a"
  by (auto simp: prefix_def)

lemma prefix_drop: "prefix a b \<Longrightarrow> a @ drop (length a) b = b"
  by (auto simp: prefix_def)

lemma stream_lines_Cons:
  "stream_lines P (l # ls) s =
     ((case fst (stream_line P l s) of None \<Rightarrow> [] | Some e \<Rightarrow> [e]) @
        fst (stream_lines P ls (snd (stream_line P l s))),
      snd (stream_lines P ls (snd (stream_line P l s))))"
  by (simp split: prod.splits)

declare stream_lines.simps(2) [simp del]

lemma stream_lines_concat:
  "prefix_chain (lastText # agent_texts (decoded_frames P lines)) \<Longrightarrow>
   lastText @ concat (map fst (fst (stream_lines P lines (this, lastText)))) =
     last (lastText # agent_texts (decoded_frames P lines))"
proof (induction lines arbitrary: this lastText)
  case Nil
  then show ?case by (simp add: decoded_frames_Nil agent_texts_Nil)
next
  case (Cons l ls)
  show ?case
  proof (cases "frame_of P l")
    case None
    then show ?thesis using Cons by (simp add: stream_lines_Cons stream_line_eq decoded_frames_Cons)
  next
    case (Some r)
    show ?thesis
    proof (cases "agent_text r")
      case None
      then show ?thesis using Some Cons.prems Cons.IH[of lastText "store_contextId this r"]
        by (simp add: stream_lines_Cons stream_line_eq decoded_frames_Cons agent_texts_Cons)
    next
      case (Some t)
      from Cons.prems \<open>frame_of P l = Some r\<close> Some
      have ch: "prefix lastText t" "prefix_chain (t # agent_texts (decoded_frames P ls))"
        by (simp_all add: decoded_frames_Cons agent_texts_Cons)
      show ?thesis
      proof (cases "length lastText < length t")
        case True
        from Cons.IH[OF ch(2), of "store_contextId this r"]
        have "lastText @ drop (length lastText) t @
                concat (map fst (fst (stream_lines P ls (store_contextId this r, t)))) =
              last (t # agent_texts (decoded_frames P ls))"
          using prefix_drop[OF ch(1)] by (metis append.assoc)
        then show ?thesis using True Some \<open>frame_of P l = Some r\<close>
          by (simp add: stream_lines_Cons stream_line_eq decoded_frames_Cons agent_texts_Cons)
      next
        case False
        then have eq: "t = lastText" using prefix_same_length[OF ch(1)] by simp
        from Cons.IH[of lastText "store_contextId this r"] ch(2) eq
        show ?thesis using False Some \<open>frame_of P l = Some r\<close>
          by (simp add: stream_lines_Cons stream_line_eq decoded_frames_Cons agent_texts_Cons)
      qed
    qed
  qed
qed

lemma last_agent_texts:
  "fs \<noteq> [] \<Longrightarrow> agent_text (last fs) = Some t \<Longrightarrow> last (x # agent_texts fs) = t"
proof (induction fs arbitrary: x)
  case Nil
  then show ?case by simp
next
  case (Cons f fs)
  show ?case
  proof (cases "fs = []")
    case True
    then show ?thesis using Cons.prems by (simp add: agent_texts_Cons agent_texts_Nil)
  next
    case False
    then show ?thesis using Cons.IH[of _] Cons.prems
      by (cases "agent_text f") (simp_all add: agent_texts_Cons)
  qed
qed

lemma stream_line_client:
  "fst (snd (stream_line P line (this, lastText))) =
     (case frame_of P line of None \<Rightarrow> this | Some r \<Rightarrow> store_contextId this r)"
  by (simp add: stream_line_eq split: option.splits)

lemma stream_lines_client:
  "fst (snd (stream_lines P lines (this, lastText))) =
     this\<lparr>currentContextId := contextId_after (currentContextId this) (decoded_frames P lines)\<rparr>"
proof (induction lines arbitrary: this lastText)
  case Nil
  then show ?case by (simp add: decoded_frames_Nil contextId_after_def)
next
  case (Cons l ls)
  obtain y this' lt' where sl: "stream_line P l (this, lastText) = (y, this', lt')"
    by (cases "stream_line P l (this, lastText)")
  have c: "this' = (case frame_of P l of None \<Rightarrow> this | Some r \<Rightarrow> store_contextId this r)"
    using stream_line_client[of P l this lastText] sl by simp
  have "fst (snd (stream_lines P (l # ls) (this, lastText))) =
          this'\<lparr>currentContextId := contextId_after (currentContextId this') (decoded_frames P ls)\<rparr>"
    using Cons.IH[of this' lt'] sl by (simp add: stream_lines_Cons)
  also have "\<dots> = this\<lparr>currentContextId :=
                 contextId_after (currentContextId this) (decoded_frames P (l # ls))\<rparr>"
    using c
    by (cases "frame_of P l"; cases "decoded_frames P ls")
       (simp_all add: decoded_frames_Cons contextId_after_def store_contextId_def)
  finally show ?case .
qed

lemma stream_line_yield:
  "stream_line P line s = (Some (y, c), s') \<Longrightarrow>
   \<exists>f. frame_of P line = Some f \<and> c = fst s' \<and> currentContextId c = Some (contextId f)"
  by (cases s) (auto simp: stream_line_eq store_contextId_def split: option.splits if_splits)

lemma stream_lines_snoc:
  "stream_lines P (ls @ [l]) s =
     (fst (stream_lines P ls s) @
        (case fst (stream_line P l (snd (stream_lines P ls s))) of None \<Rightarrow> [] | Some e \<Rightarrow> [e]),
      snd (stream_line P l (snd (stream_lines P ls s))))"
  by (simp add: stream_lines_append stream_lines_Cons)

lemma stream_lines_yield_at:
  "k < length (fst (stream_lines P lines s)) \<Longrightarrow>
   \<exists>n f. n < length lines \<and> frame_of P (lines ! n) = Some f \<and>
     length (fst (stream_lines P (take n lines) s)) = k \<and>
     length (fst (stream_lines P (take (Suc n) lines) s)) = Suc k \<and>
     snd (fst (stream_lines P lines s) ! k) = fst (snd (stream_lines P (take (Suc n) lines) s)) \<and>
     currentContextId (snd (fst (stream_lines P lines s) ! k)) = Some (contextId f)"
proof (induction lines rule: rev_induct)
  case Nil
  then show ?case by simp
next
  case (snoc l ls)
  let ?ys = "fst (stream_lines P ls s)"
  show ?case
  proof (cases "k < length ?ys")
    case True
    from snoc.IH[OF True] obtain n f where
      h: "n < length ls" "frame_of P (ls ! n) = Some f"
         "length (fst (stream_lines P (take n ls) s)) = k"
         "length (fst (stream_lines P (take (Suc n) ls) s)) = Suc k"
         "snd (?ys ! k) = fst (snd (stream_lines P (take (Suc n) ls) s))"
         "currentContextId (snd (?ys ! k)) = Some (contextId f)"
      by blast
    have "fst (stream_lines P (ls @ [l]) s) ! k = ?ys ! k"
      using True by (simp add: stream_lines_snoc nth_append)
    then show ?thesis using h
      by (intro exI[of _ n] exI[of _ f]) (simp add: nth_append)
  next
    case False
    obtain y s' where sl: "stream_line P l (snd (stream_lines P ls s)) = (y, s')"
      by (cases "stream_line P l (snd (stream_lines P ls s))")
    from False snoc.prems obtain t c where y: "y = Some (t, c)" and k: "k = length ?ys"
      using sl by (cases y) (auto simp: stream_lines_snoc)
    from stream_line_yield[OF sl[unfolded y]] obtain f where
      f: "frame_of P l = Some f" "c = fst s'" "currentContextId c = Some (contextId f)"
      by blast
    show ?thesis
      using f k sl y
      by (intro exI[of _ "length ls"] exI[of _ f]) (simp add: stream_lines_snoc nth_append)
  qed
qed

lemma sample_decoder_streaming: "streaming_decoder (decode (sample_platform r))"
  by (simp add: streaming_decoder_def sample_platform_def)

lemma prefix_chain_Nil_Cons: "prefix_chain ([] # xs) = prefix_chain xs"
  by (cases xs) auto

lemma stream_with_body:
  assumes "fetch P (stream_request this text) = Resolved response"
      and "status response \<noteq> 402" and "body_reader response = Some reader"
  shows "stream P this text =
           (fst (stream_lines P (exchange_lines P reader) (next_request this, [])),
            stream_end reader,
            fst (snd (stream_lines P (exchange_lines P reader) (next_request this, []))))"
  using assms
  by (simp add: stream_def stream_request_def next_request_def a2a_url_def Let_def
        stream_loop_lines exchange_lines_def)

lemma send_streaming_with_body:
  assumes "wants_streaming opts"
      and "fetch P (send_request this text opts) = Resolved response"
      and "status response \<noteq> 402" and "body_reader response = Some reader"
  shows "send P this text opts =
           (case reader_end reader of
              Closed \<Rightarrow>
                (case exchange_frames P reader of
                   [] \<Rightarrow> (Some (Inl (Error ''No task received'')), next_request this)
                 | fs \<Rightarrow> (Some (Inr (last fs)),
                     (next_request this)\<lparr>currentContextId := Some (contextId (last fs))\<rparr>))
            | Broken \<Rightarrow> (Some (Inl NetworkError), next_request this)
            | _ \<Rightarrow> (None, next_request this))"
  using assms
  by (simp add: send_def handleStreaming_def send_request_def next_request_def a2a_url_def Let_def
        handleStreaming_loop_lines foldl_handle_line exchange_lines_def exchange_frames_def
      split: reader.splits list.splits)

lemma frame_of_done: "frame_of P ''data: [DONE]'' = None"
  by (simp add: frame_of_def)

lemma decoded_frames_not_done:
  "decoded_frames P (filter not_done lines) = decoded_frames P lines"
  by (induction lines)
     (simp_all add: decoded_frames_Cons decoded_frames_Nil not_done_def frame_of_done
        split: option.splits)

lemma stream_line_done: "stream_line P ''data: [DONE]'' s = (None, s)"
  by (simp add: stream_line_def)

lemma stream_lines_not_done:
  "stream_lines P (filter not_done lines) s = stream_lines P lines s"
  by (induction lines arbitrary: s) (simp_all add: stream_lines_Cons not_done_def stream_line_done)

lemma send_requestId: "requestId (snd (send P this text opts)) = Suc (requestId this)"
  by (simp add: send_def handleStreaming_def Let_def
        split: fetch_result.splits option.splits loop_result.splits)

lemma decoded_frames_empty:
  "decoded_frames P lines = [] \<longleftrightarrow> (\<forall>line \<in> set lines. frame_of P line = None)"
  by (induction lines) (auto simp: decoded_frames_Cons decoded_frames_Nil split: option.splits)

subsection \<open>The claims\<close>

text \<open>
  Claim C1. Whenever the POST to \<open>/a2a\<close> is answered with status 402 and a JSON body, the
  operation fails with \<open>PaymentRequiredError\<close> carrying that parsed body as it is: the unary
  and the streaming \<open>send\<close> (the options are arbitrary) and \<open>stream\<close> alike. The outcome
  holds for every \<open>as_JsonRpcResponse\<close> and every \<open>body_reader\<close> of the response, so the body
  is neither read as a JSON-RPC response nor given to the stream loop.
\<close>

theorem payment_required_short_circuit:
  assumes "status response = 402" and "json response = Some info"
  shows "(fetch P (send_request this text opts) = Resolved response \<longrightarrow>
            send P this text opts = (Some (Inl (PaymentRequiredError info)), next_request this)) \<and>
         (fetch P (stream_request this text) = Resolved response \<longrightarrow>
            stream P this text = ([], Some (Inl (PaymentRequiredError info)), next_request this))"
  using assms
  by (simp add: send_def handleStreaming_def stream_def send_request_def stream_request_def
        next_request_def a2a_url_def Let_def)

theorem payment_required_short_circuit_witness:
  "send (sample_platform sample_402) sample_client ''Hello'' None =
     (Some (Inl (PaymentRequiredError (Challenge [(''amount'', ''0.01'')]))),
      next_request sample_client) \<and>
   send (sample_platform sample_402) sample_client ''Hello'' streaming_on =
     (Some (Inl (PaymentRequiredError (Challenge [(''amount'', ''0.01'')]))),
      next_request sample_client) \<and>
   stream (sample_platform sample_402) sample_client ''Hello'' =
     ([], Some (Inl (PaymentRequiredError (Challenge [(''amount'', ''0.01'')]))),
      next_request sample_client)"
proof -
  have s: "status sample_402 = 402"
    and j: "json sample_402 = Some (Challenge [(''amount'', ''0.01'')])"
    by (simp_all add: sample_402_def)
  have f: "fetch (sample_platform sample_402) req = Resolved sample_402" for req
    by (simp add: sample_platform_def)
  show ?thesis
    using payment_required_short_circuit[OF s j, of "sample_platform sample_402" sample_client "''Hello''" None]
      payment_required_short_circuit[OF s j, of "sample_platform sample_402" sample_client "''Hello''" streaming_on]
      f
    by simp
qed

text \<open>
  Claim C2. With a streaming decoder, two ways \<open>cs1\<close> and \<open>cs2\<close> of cutting the same bytes
  into chunks (byte by byte, line by line, all at once) make the loops emit the same lines
  in the same order, and make \<open>handleStreaming\<close>'s loop and \<open>stream\<close>'s loop give the same
  result: the same last Task, the same yields.
\<close>

theorem chunk_fragmentation_independent:
  assumes "streaming_decoder (decode P)" and "concat cs1 = concat cs2"
  shows "emitted_lines P d [] (chunked cs1 r) = emitted_lines P d [] (chunked cs2 r) \<and>
         handleStreaming_loop P d lastTask [] (chunked cs1 r) =
           handleStreaming_loop P d lastTask [] (chunked cs2 r) \<and>
         stream_loop P d [] s (chunked cs1 r) = stream_loop P d [] s (chunked cs2 r)"
proof -
  have e: "emitted_lines P d [] (chunked cs1 r) = emitted_lines P d [] (chunked cs2 r)"
    by (rule emitted_lines_concat[OF assms])
  have h: "handleStreaming_loop P d lastTask [] (chunked cs1 r) =
           handleStreaming_loop P d lastTask [] (chunked cs2 r)"
    unfolding handleStreaming_loop_lines reader_end_chunked e ..
  have g: "stream_loop P d [] s (chunked cs1 r) = stream_loop P d [] s (chunked cs2 r)"
    unfolding stream_loop_lines stream_end_def reader_end_chunked e ..
  from e h g show ?thesis by simp
qed

theorem chunk_fragmentation_independent_witness:
  "handleStreaming_loop (sample_platform sample_402) () None []
     (chunked (map (\<lambda>b. [b]) sample_sse) Closed) =
   Finished (Some (sample_task ''ctx-1'' ''Hello'')) \<and>
   handleStreaming_loop (sample_platform sample_402) () None []
     (chunked [''data: {hel}\<newline>'', ''\<newline>'', ''data: {hello}\<newline>'', ''\<newline>'', ''data: [DONE]\<newline>'', ''\<newline>''] Closed) =
   Finished (Some (sample_task ''ctx-1'' ''Hello'')) \<and>
   map fst (fst (stream_loop (sample_platform sample_402) () [] (sample_client, [])
     (chunked (map (\<lambda>b. [b]) sample_sse) Closed))) = [''Hel'', ''lo'']"
proof -
  let ?P = "sample_platform sample_402"
  have c1: "concat (map (\<lambda>b. [b]) sample_sse) = concat [sample_sse]"
    by (simp add: sample_sse_def)
  have c2: "concat [''data: {hel}\<newline>'', ''\<newline>'', ''data: {hello}\<newline>'', ''\<newline>'', ''data: [DONE]\<newline>'', ''\<newline>''] = concat [sample_sse]"
    by (simp add: sample_sse_def)
  have w: "handleStreaming_loop ?P () None [] (chunked [sample_sse] Closed) =
             Finished (Some (sample_task ''ctx-1'' ''Hello''))"
    by code_simp
  have v: "map fst (fst (stream_loop ?P () [] (sample_client, []) (chunked [sample_sse] Closed))) =
             [''Hel'', ''lo'']"
    by code_simp
  show ?thesis
    using chunk_fragmentation_independent[OF sample_decoder_streaming c1, where d = "()"
        and lastTask = None and r = Closed and s = "(sample_client, [])"]
      chunk_fragmentation_independent[OF sample_decoder_streaming c2, where d = "()"
        and lastTask = None and r = Closed and s = "(sample_client, [])"]
      w v
    by simp
qed

text \<open>
  Claim C3. In a streaming exchange whose decoded frames carry agent-message texts that each
  extend the one before, the increments yielded by \<open>stream\<close>, put together, are the last of
  these texts; so they are the agent-message text of the final decoded Task when it has one.
  The agent-message text is \<open>agent_text\<close>, the text of the first part of the Task's first
  message of role \<open>agent\<close>, whatever the other messages are.
\<close>

theorem stream_increments_concat:
  assumes "fetch P (stream_request this text) = Resolved response"
      and "status response \<noteq> 402" and "body_reader response = Some reader"
      and "prefix_chain (agent_texts (exchange_frames P reader))"
  shows "concat (map fst (fst (stream P this text))) =
           last ([] # agent_texts (exchange_frames P reader)) \<and>
         (\<forall>t. exchange_frames P reader \<noteq> [] \<and>
               agent_text (last (exchange_frames P reader)) = Some t \<longrightarrow>
               concat (map fst (fst (stream P this text))) = t)"
proof -
  have "prefix_chain ([] # agent_texts (decoded_frames P (exchange_lines P reader)))"
    using assms(4) by (simp add: prefix_chain_Nil_Cons exchange_frames_def)
  from stream_lines_concat[OF this, of "next_request this"]
  have 1: "concat (map fst (fst (stream P this text))) =
           last ([] # agent_texts (exchange_frames P reader))"
    by (simp add: stream_with_body[OF assms(1-3)] exchange_frames_def)
  show ?thesis
    using 1 last_agent_texts[of "exchange_frames P reader" _ "[]"] by auto
qed

theorem stream_increments_concat_witness:
  "concat (map fst (fst (stream (sample_platform (sample_body (Chunk sample_stream Closed)))
      sample_client ''Hi''))) = ''Hello''"
proof -
  let ?r = "Chunk sample_stream Closed"
  let ?P = "sample_platform (sample_body ?r)"
  have f: "fetch ?P (stream_request sample_client ''Hi'') = Resolved (sample_body ?r)"
    by (simp add: sample_platform_def)
  have s: "status (sample_body ?r) \<noteq> 402" and b: "body_reader (sample_body ?r) = Some ?r"
    by (simp_all add: sample_body_def)
  have fr: "exchange_frames ?P ?r = [sample_task ''ctx-1'' ''Hel'', sample_task ''ctx-1'' ''Hello'']"
    by code_simp
  have c: "prefix_chain (agent_texts (exchange_frames ?P ?r))"
    unfolding fr by code_simp
  have n: "exchange_frames ?P ?r \<noteq> []"
    and t: "agent_text (last (exchange_frames ?P ?r)) = Some ''Hello''"
    unfolding fr by code_simp+
  from stream_increments_concat[OF f s b c] n t show ?thesis by blast
qed

text \<open>
  Claim C4, as amended. For a decoded frame whose agent text \<open>t\<close> does not extend \<open>lastText\<close>,
  \<open>stream\<close> compares lengths only: when \<open>t\<close> is longer it yields \<open>t\<close> without its first
  \<open>length lastText\<close> characters and takes \<open>t\<close> as the new \<open>lastText\<close>, otherwise it yields
  nothing and keeps \<open>lastText\<close>. It never yields the whole of \<open>t\<close>. It does not crash: how
  the generator ends depends on the reader alone.
\<close>

theorem stream_frame_not_extension:
  assumes "frame_of P line = Some f" and "agent_text f = Some t" and "\<not> prefix lastText t"
  shows "stream_line P line (this, lastText) =
           (if length lastText < length t then
              (Some (drop (length lastText) t, store_contextId this f), store_contextId this f, t)
            else (None, store_contextId this f, lastText)) \<and>
         fst (stream_line P line (this, lastText)) \<noteq> Some (t, c) \<and>
         fst (snd (stream_loop P d buffer s r)) = stream_end r"
proof -
  have ne: "lastText \<noteq> []" using assms(3) by auto
  have "length lastText < length t \<Longrightarrow> drop (length lastText) t \<noteq> t"
  proof
    assume a: "length lastText < length t" "drop (length lastText) t = t"
    then have l: "length t - length lastText = length t" by (metis length_drop)
    have p: "0 < length lastText" using ne by simp
    from l p a(1) show False by arith
  qed
  then show ?thesis using assms(1,2) by (simp add: stream_line_eq stream_loop_lines)
qed

theorem stream_frame_not_extension_witness:
  "stream_line (sample_platform sample_402) ''data: {bye}'' (sample_client, ''Hello'') =
     (Some (''ow'', store_contextId sample_client (sample_task ''ctx-1'' ''Bye now'')),
      store_contextId sample_client (sample_task ''ctx-1'' ''Bye now''), ''Bye now'')"
proof -
  let ?P = "sample_platform sample_402"
  have f: "frame_of ?P ''data: {bye}'' = Some (sample_task ''ctx-1'' ''Bye now'')"
    by code_simp
  have a: "agent_text (sample_task ''ctx-1'' ''Bye now'') = Some ''Bye now''"
    by code_simp
  have n: "\<not> prefix ''Hello'' ''Bye now''"
    by simp
  from stream_frame_not_extension[OF f a n, of sample_client] show ?thesis by simp
qed

theorem stream_new_message_counterexample:
  "exchange_frames (sample_platform sample_402) (Chunk sample_restart Closed) =
     [sample_task ''ctx-1'' ''Hello'', sample_task ''ctx-1'' ''Bye now''] \<and>
   \<not> prefix ''Hello'' ''Bye now'' \<and>
   map fst (fst (stream (sample_platform (sample_body (Chunk sample_restart Closed)))
     sample_client ''Hi'')) = [''Hello'', ''ow'']"
  by code_simp

text \<open>
  Claim C5, as amended. In both streaming paths a data line with the payload \<open>[DONE]\<close> is
  skipped and nothing else: the loop gives what it gives on the same lines without the
  sentinel lines, it reads on until the reader reports the end of the body, and lines that
  arrive after the sentinel are decoded like any other. On a reader that stays open the
  loop waits for ever.
\<close>

theorem done_sentinel_is_skipped:
  "handleStreaming_loop P d lastTask buffer r =
     (case reader_end r of
        Closed \<Rightarrow>
          Finished (foldl (handle_line P) lastTask (filter not_done (emitted_lines P d buffer r)))
      | Broken \<Rightarrow> ReadFailed
      | _ \<Rightarrow> Blocked) \<and>
   stream_loop P d buffer s r =
     (fst (stream_lines P (filter not_done (emitted_lines P d buffer r)) s),
      stream_end r,
      fst (snd (stream_lines P (filter not_done (emitted_lines P d buffer r)) s)))"
proof -
  have "foldl (handle_line P) lastTask (filter not_done (emitted_lines P d buffer r)) =
        foldl (handle_line P) lastTask (emitted_lines P d buffer r)"
    by (simp add: foldl_handle_line decoded_frames_not_done)
  then show ?thesis
    by (simp add: handleStreaming_loop_lines stream_loop_lines stream_lines_not_done
          split: reader.splits)
qed

theorem done_sentinel_is_skipped_witness:
  "handleStreaming_loop (sample_platform sample_402) () None []
     (Chunk ''data: {hel}\<newline>data: [DONE]\<newline>'' (Chunk ''data: {other}\<newline>'' Closed)) =
     Finished (Some (sample_task ''ctx-2'' ''Hello'')) \<and>
   stream_loop (sample_platform sample_402) () [] (sample_client, [])
     (Chunk ''data: {hel}\<newline>data: [DONE]\<newline>'' (Chunk ''data: {hello}\<newline>'' Stalled)) =
     ([(''Hel'', store_contextId sample_client (sample_task ''ctx-1'' ''Hel'')),
       (''lo'', store_contextId sample_client (sample_task ''ctx-1'' ''Hello''))], None,
      store_contextId sample_client (sample_task ''ctx-1'' ''Hello''))"
proof -
  let ?P = "sample_platform sample_402"
  let ?r = "Chunk ''data: {hel}\<newline>data: [DONE]\<newline>'' (Chunk ''data: {other}\<newline>'' Closed)"
  let ?q = "Chunk ''data: {hel}\<newline>data: [DONE]\<newline>'' (Chunk ''data: {hello}\<newline>'' Stalled)"
  have h: "(case reader_end ?r of
              Closed \<Rightarrow>
                Finished (foldl (handle_line ?P) None (filter not_done (emitted_lines ?P () [] ?r)))
            | Broken \<Rightarrow> ReadFailed
            | _ \<Rightarrow> Blocked) = Finished (Some (sample_task ''ctx-2'' ''Hello''))"
    by code_simp
  have g: "(fst (stream_lines ?P (filter not_done (emitted_lines ?P () [] ?q)) (sample_client, [])),
            stream_end ?q :: (sample_json js_error + unit) option,
            fst (snd (stream_lines ?P (filter not_done (emitted_lines ?P () [] ?q))
              (sample_client, [])))) =
     ([(''Hel'', store_contextId sample_client (sample_task ''ctx-1'' ''Hel'')),
       (''lo'', store_contextId sample_client (sample_task ''ctx-1'' ''Hello''))], None,
      store_contextId sample_client (sample_task ''ctx-1'' ''Hello''))"
    by code_simp
  from done_sentinel_is_skipped[of ?P "()" None "[]" ?r "(sample_client, [])"]
    done_sentinel_is_skipped[of ?P "()" None "[]" ?q "(sample_client, [])"] h g
  show ?thesis by simp
qed

theorem done_stops_reading_counterexample:
  "handleStreaming_loop (sample_platform sample_402) () None []
     (Chunk ''data: {hel}\<newline>data: [DONE]\<newline>'' Closed) =
     Finished (Some (sample_task ''ctx-1'' ''Hel'')) \<and>
   handleStreaming_loop (sample_platform sample_402) () None []
     (Chunk ''data: {hel}\<newline>data: [DONE]\<newline>'' (Chunk ''data: {other}\<newline>'' Closed)) =
     Finished (Some (sample_task ''ctx-2'' ''Hello'')) \<and>
   handleStreaming_loop (sample_platform sample_402) () None []
     (Chunk ''data: {hel}\<newline>data: [DONE]\<newline>'' Stalled) = Blocked \<and>
   stream_loop (sample_platform sample_402) () [] (sample_client, [])
     (Chunk ''data: {hel}\<newline>data: [DONE]\<newline>'' Stalled) =
     ([(''Hel'', store_contextId sample_client (sample_task ''ctx-1'' ''Hel''))], None,
      store_contextId sample_client (sample_task ''ctx-1'' ''Hel''))"
  by code_simp

text \<open>
  Claim C6. When \<open>send\<close> returns a Task, in unary or in streaming mode, the client then
  stores the context id of that Task.
\<close>

theorem send_stores_returned_contextId:
  assumes "send P this text opts = (Some (Inr task), this')"
  shows "currentContextId this' = Some (contextId task)"
  using assms
  by (auto simp: send_def handleStreaming_def Let_def
        split: if_splits fetch_result.splits option.splits loop_result.splits)

theorem send_stores_returned_contextId_witness:
  "currentContextId (snd (send (sample_platform sample_500) sample_client ''Hello'' None)) =
     Some ''ctx-1'' \<and>
   currentContextId (snd (send
     (sample_platform (sample_body (Chunk ''data: {hel}\<newline>data: {other}\<newline>'' Closed)))
     sample_client ''Hello'' streaming_on)) = Some ''ctx-2''"
proof -
  let ?Q = "sample_platform (sample_body (Chunk ''data: {hel}\<newline>data: {other}\<newline>'' Closed))"
  have u: "send (sample_platform sample_500) sample_client ''Hello'' None =
             (Some (Inr (sample_task ''ctx-1'' ''Hello'')),
              snd (send (sample_platform sample_500) sample_client ''Hello'' None))"
    by code_simp
  have v: "send ?Q sample_client ''Hello'' streaming_on =
             (Some (Inr (sample_task ''ctx-2'' ''Hello'')),
              snd (send ?Q sample_client ''Hello'' streaming_on))"
    by code_simp
  have c: "contextId (sample_task ''ctx-1'' ''Hello'') = ''ctx-1''"
          "contextId (sample_task ''ctx-2'' ''Hello'') = ''ctx-2''"
    by (simp_all add: sample_task_def)
  from send_stores_returned_contextId[OF u] send_stores_returned_contextId[OF v] c
  show ?thesis by simp
qed

text \<open>
  Claim C7, as amended. A unary \<open>send\<close> whose POST is answered with any status other than
  402, 2xx or not, goes on to read the body as a JSON-RPC response: it fails with the RPC
  error when the response has an \<open>error\<close> member, with a \<open>TypeError\<close> when it has neither
  \<open>error\<close> nor \<open>result\<close>, and otherwise returns the \<open>result\<close> and stores its context id.
\<close>

theorem unary_send_ignores_status:
  assumes "\<not> wants_streaming opts"
      and "fetch P (send_request this text opts) = Resolved response"
      and "status response \<noteq> 402" and "json response = Some v"
  shows "send P this text opts =
           (case error (as_JsonRpcResponse P v) of
              Some e \<Rightarrow> (Some (Inl (Error (''RPC Error: '' @ message e))), next_request this)
            | None \<Rightarrow>
                (case result (as_JsonRpcResponse P v) of
                   None \<Rightarrow> (Some (Inl TypeError), next_request this)
                 | Some task \<Rightarrow>
                     (Some (Inr task),
                      (next_request this)\<lparr>currentContextId := Some (contextId task)\<rparr>)))"
  using assms
  by (simp add: send_def send_request_def next_request_def a2a_url_def Let_def
        split: option.splits)

theorem unary_send_ignores_status_witness:
  "send (sample_platform sample_500) sample_client ''Hello'' None =
     (Some (Inr (sample_task ''ctx-1'' ''Hello'')),
      (next_request sample_client)\<lparr>currentContextId := Some ''ctx-1''\<rparr>)"
proof -
  let ?P = "sample_platform sample_500"
  have w: "\<not> wants_streaming None" by (simp add: wants_streaming_def)
  have f: "fetch ?P (send_request sample_client ''Hello'' None) = Resolved sample_500"
    by (simp add: sample_platform_def)
  have s: "status sample_500 \<noteq> 402"
    and j: "json sample_500 = Some (sample_envelope (sample_task ''ctx-1'' ''Hello''))"
    by (simp_all add: sample_500_def)
  from unary_send_ignores_status[OF w f s j] show ?thesis
    by (simp add: sample_platform_def sample_envelope_def sample_task_def)
qed

theorem non_2xx_transport_error_counterexample:
  "status sample_500 = 500 \<and>
   fetch (sample_platform sample_500) (send_request sample_client ''Hello'' None) =
     Resolved sample_500 \<and>
   fst (send (sample_platform sample_500) sample_client ''Hello'' None) =
     Some (Inr (sample_task ''ctx-1'' ''Hello''))"
  by code_simp

text \<open>
  Claim C8, as amended. \<open>continue\<close> fails with the error "No active conversation" and
  leaves the client untouched if and only if the stored context id is absent or is the empty
  string; with a non-empty stored context id it is the \<open>send\<close> with that context id and
  the given streaming flag, whose request carries both.
\<close>

theorem continue_needs_truthy_contextId:
  "(continue P this text streaming = (Some (Inl no_conversation), this) \<longleftrightarrow>
      currentContextId this = None \<or> currentContextId this = Some []) \<and>
   (\<forall>c. currentContextId this = Some c \<and> c \<noteq> [] \<longrightarrow>
      continue P this text streaming =
        send P this text
          (Some \<lparr>opt_contextId = Some c,
                 opt_streaming = Some (case streaming of None \<Rightarrow> False | Some b \<Rightarrow> b)\<rparr>) \<and>
      params_configuration (body (send_request this text
          (Some \<lparr>opt_contextId = Some c,
                 opt_streaming = Some (case streaming of None \<Rightarrow> False | Some b \<Rightarrow> b)\<rparr>))) =
        \<lparr>cfg_contextId = Some c,
         cfg_streaming = (case streaming of None \<Rightarrow> False | Some b \<Rightarrow> b)\<rparr>)"
proof -
  have ne: "send P this text opts \<noteq> (e, this)" for opts e
    using send_requestId[of P "this" "text" opts] by (cases "send P this text opts") auto
  show ?thesis
    by (cases "currentContextId this")
       (auto simp: continue_def no_conversation_def Let_def ne send_request_def send_payload_def
          effective_contextId_def wants_streaming_def)
qed

theorem continue_needs_truthy_contextId_witness:
  "continue (sample_platform sample_500) active_client ''More'' None =
     send (sample_platform sample_500) active_client ''More''
       (Some \<lparr>opt_contextId = Some ''ctx-1'', opt_streaming = Some False\<rparr>) \<and>
   continue (sample_platform sample_500) sample_client ''More'' None =
     (Some (Inl no_conversation), sample_client)"
proof -
  have a: "currentContextId active_client = Some ''ctx-1'' \<and> ''ctx-1'' \<noteq> []"
    by (simp add: active_client_def sample_client_def)
  have n: "currentContextId sample_client = None"
    by (simp add: sample_client_def)
  from continue_needs_truthy_contextId[of "sample_platform sample_500" active_client "''More''" None]
    a
  have 1: "continue (sample_platform sample_500) active_client ''More'' None =
     send (sample_platform sample_500) active_client ''More''
       (Some \<lparr>opt_contextId = Some ''ctx-1'', opt_streaming = Some False\<rparr>)"
    by simp
  from continue_needs_truthy_contextId[of "sample_platform sample_500" sample_client "''More''" None]
    n
  have 2: "continue (sample_platform sample_500) sample_client ''More'' None =
     (Some (Inl no_conversation), sample_client)"
    by simp
  from 1 2 show ?thesis by simp
qed

theorem continue_stored_contextId_counterexample:
  "send (sample_platform sample_empty_context) sample_client ''Hello'' None =
     (Some (Inr (sample_task [] ''Hello'')), empty_context_client) \<and>
   currentContextId empty_context_client = Some [] \<and>
   continue (sample_platform sample_500) empty_context_client ''More'' None =
     (Some (Inl (Error ''No active conversation. Call send() first.'')), empty_context_client)"
  by code_simp

text \<open>
  Claim C9, as amended. A streaming \<open>send\<close> whose POST is answered with a status other than
  402 and a body, and in which no line decodes to a payload with a \<open>result\<close>, never returns
  a Task and leaves the stored context id as it was. What it does instead depends on how
  the body ends: read to its end, the \<open>send\<close> fails with the error "No task received"; when
  a \<open>read()\<close> rejects, it fails with that rejection; when the connection stays open, it
  never settles.
\<close>

theorem streaming_send_without_task:
  assumes "wants_streaming opts"
      and "fetch P (send_request this text opts) = Resolved response"
      and "status response \<noteq> 402" and "body_reader response = Some reader"
      and "\<forall>line \<in> set (exchange_lines P reader). frame_of P line = None"
  shows "fst (send P this text opts) =
           (case reader_end reader of
              Closed \<Rightarrow> Some (Inl (Error ''No task received''))
            | Broken \<Rightarrow> Some (Inl NetworkError)
            | _ \<Rightarrow> None) \<and>
         fst (send P this text opts) \<noteq> Some (Inr task) \<and>
         snd (send P this text opts) = next_request this \<and>
         currentContextId (snd (send P this text opts)) = currentContextId this"
proof -
  have "exchange_frames P reader = []"
    using assms(5) by (simp add: exchange_frames_def decoded_frames_empty)
  then show ?thesis
    using send_streaming_with_body[OF assms(1-4)]
    by (simp add: next_request_def split: reader.splits)
qed

theorem streaming_send_without_task_witness:
  "send (sample_platform (sample_body done_only)) active_client ''Hello'' streaming_on =
     (Some (Inl (Error ''No task received'')), next_request active_client) \<and>
   send (sample_platform (sample_body malformed_only)) active_client ''Hello'' streaming_on =
     (Some (Inl (Error ''No task received'')), next_request active_client) \<and>
   send (sample_platform (sample_body done_stalled)) active_client ''Hello'' streaming_on =
     (None, next_request active_client) \<and>
   currentContextId (next_request active_client) = Some ''ctx-1''"
proof -
  have w: "wants_streaming streaming_on" by (simp add: wants_streaming_def streaming_on_def)
  have f: "fetch (sample_platform (sample_body r)) (send_request active_client ''Hello'' streaming_on) =
             Resolved (sample_body r)" for r
    by (simp add: sample_platform_def)
  have s: "status (sample_body r) \<noteq> 402" and b: "body_reader (sample_body r) = Some r" for r
    by (simp_all add: sample_body_def)
  have e1: "reader_end done_only = Closed" and e2: "reader_end malformed_only = Closed"
    and e3: "reader_end done_stalled = Stalled"
    by (simp_all add: done_only_def malformed_only_def done_stalled_def)
  have l1: "\<forall>line \<in> set (exchange_lines (sample_platform (sample_body done_only)) done_only).
              frame_of (sample_platform (sample_body done_only)) line = None"
    by code_simp
  have l2: "\<forall>line \<in> set (exchange_lines (sample_platform (sample_body malformed_only)) malformed_only).
              frame_of (sample_platform (sample_body malformed_only)) line = None"
    by code_simp
  have l3: "\<forall>line \<in> set (exchange_lines (sample_platform (sample_body done_stalled)) done_stalled).
              frame_of (sample_platform (sample_body done_stalled)) line = None"
    by code_simp
  have c: "currentContextId (next_request active_client) = Some ''ctx-1''"
    by code_simp
  from streaming_send_without_task[OF w f s b l1] streaming_send_without_task[OF w f s b l2]
    streaming_send_without_task[OF w f s b l3] e1 e2 e3 c
  show ?thesis by (simp add: prod_eq_iff)
qed

theorem no_task_received_counterexample:
  "exchange_lines (sample_platform (sample_body done_stalled)) done_stalled =
     [''data: [DONE]'', []] \<and>
   exchange_frames (sample_platform (sample_body done_stalled)) done_stalled = [] \<and>
   send (sample_platform (sample_body done_stalled)) active_client ''Hello'' streaming_on =
     (None, next_request active_client) \<and>
   exchange_frames (sample_platform (sample_body done_broken)) done_broken = [] \<and>
   send (sample_platform (sample_body done_broken)) active_client ''Hello'' streaming_on =
     (Some (Inl NetworkError), next_request active_client)"
  by code_simp

text \<open>
  Claim C10. \<open>stream\<close> stores the context id of every decoded frame at once. However the
  generator ends (the body ends, a \<open>read()\<close> rejects, or the connection stays open), the
  client then stores the context id of the last decoded frame; and at each yield, where a
  consumer may abandon the generator, the client stores the context id of the last frame
  decoded up to the line that yields.
\<close>

theorem stream_stores_contextId_per_frame:
  assumes "fetch P (stream_request this text) = Resolved response"
      and "status response \<noteq> 402" and "body_reader response = Some reader"
  shows "currentContextId (snd (snd (stream P this text))) =
           contextId_after (currentContextId this) (exchange_frames P reader) \<and>
         (\<forall>k < length (fst (stream P this text)).
            \<exists>n < length (exchange_lines P reader).
              length (fst (stream_lines P (take n (exchange_lines P reader))
                 (next_request this, []))) = k \<and>
              length (fst (stream_lines P (take (Suc n) (exchange_lines P reader))
                 (next_request this, []))) = Suc k \<and>
              decoded_frames P (take (Suc n) (exchange_lines P reader)) \<noteq> [] \<and>
              currentContextId (snd (fst (stream P this text) ! k)) =
                Some (contextId (last (decoded_frames P (take (Suc n) (exchange_lines P reader))))))"
proof -
  let ?L = "exchange_lines P reader"
  let ?s = "(next_request this, [])"
  have st: "stream P this text =
      (fst (stream_lines P ?L ?s), stream_end reader, fst (snd (stream_lines P ?L ?s)))"
    by (rule stream_with_body[OF assms])
  have a: "currentContextId (snd (snd (stream P this text))) =
           contextId_after (currentContextId this) (exchange_frames P reader)"
    by (simp add: st stream_lines_client exchange_frames_def next_request_def)
  have b: "\<exists>n < length ?L.
              length (fst (stream_lines P (take n ?L) ?s)) = k \<and>
              length (fst (stream_lines P (take (Suc n) ?L) ?s)) = Suc k \<and>
              decoded_frames P (take (Suc n) ?L) \<noteq> [] \<and>
              currentContextId (snd (fst (stream P this text) ! k)) =
                Some (contextId (last (decoded_frames P (take (Suc n) ?L))))"
    if k: "k < length (fst (stream P this text))" for k
  proof -
    from k have "k < length (fst (stream_lines P ?L ?s))" by (simp add: st)
    from stream_lines_yield_at[OF this] obtain n f where
      h: "n < length ?L" "frame_of P (?L ! n) = Some f"
         "length (fst (stream_lines P (take n ?L) ?s)) = k"
         "length (fst (stream_lines P (take (Suc n) ?L) ?s)) = Suc k"
         "currentContextId (snd (fst (stream_lines P ?L ?s) ! k)) = Some (contextId f)"
      by blast
    have "take (Suc n) ?L = take n ?L @ [?L ! n]"
      using h(1) by (simp add: take_Suc_conv_app_nth)
    then have "decoded_frames P (take (Suc n) ?L) = decoded_frames P (take n ?L) @ [f]"
      using h(2) by (simp add: decoded_frames_append decoded_frames_Cons decoded_frames_Nil)
    then show ?thesis using h by (intro exI[of _ n]) (simp add: st)
  qed
  from a b show ?thesis by blast
qed

theorem stream_stores_contextId_per_frame_witness:
  "stream (sample_platform (sample_body broken_stream)) sample_client ''Hi'' =
     ([(''Hel'', store_contextId (next_request sample_client) (sample_task ''ctx-1'' ''Hel'')),
       (''lo'', store_contextId (next_request sample_client) (sample_task ''ctx-2'' ''Hello''))],
      Some (Inl NetworkError),
      store_contextId (next_request sample_client) (sample_task ''ctx-2'' ''Hello'')) \<and>
   currentContextId (snd (snd (stream (sample_platform (sample_body broken_stream))
      sample_client ''Hi''))) = Some ''ctx-2''"
proof -
  let ?P = "sample_platform (sample_body broken_stream)"
  have f: "fetch ?P (stream_request sample_client ''Hi'') = Resolved (sample_body broken_stream)"
    by (simp add: sample_platform_def)
  have s: "status (sample_body broken_stream) \<noteq> 402"
    and b: "body_reader (sample_body broken_stream) = Some broken_stream"
    by (simp_all add: sample_body_def)
  have fr: "contextId_after (currentContextId sample_client) (exchange_frames ?P broken_stream) =
              Some ''ctx-2''"
    by code_simp
  have v: "stream ?P sample_client ''Hi'' =
     ([(''Hel'', store_contextId (next_request sample_client) (sample_task ''ctx-1'' ''Hel'')),
       (''lo'', store_contextId (next_request sample_client) (sample_task ''ctx-2'' ''Hello''))],
      Some (Inl NetworkError),
      store_contextId (next_request sample_client) (sample_task ''ctx-2'' ''Hello''))"
    by code_simp
  from stream_stores_contextId_per_frame[OF f s b] fr v show ?thesis by simp
qed

end
